theory Spec2Isabelle
  imports Main "HOL-Library.Multiset"
begin

section \<open>Data model\<close>

text \<open>
  The class \<open>Question\<close> of the quiz application. The field \<open>text\<close> of the source is
  called \<open>q_text\<close> here; \<open>difficulty\<close> is the string delivered by the trivia service and
  is not restricted to the three tier labels by the constructor.
\<close>

record question =
  q_text :: string
  choices :: "string list"
  answer :: string
  difficulty :: string
  category :: string

definition isCorrectAnswer :: "question \<Rightarrow> string \<Rightarrow> bool" where
  "isCorrectAnswer q choice = (answer q = choice)"

text \<open>
  The class \<open>Quiz\<close>: the running score and the position in the quiz. The counters start
  at zero and only ever grow by one, so they are natural numbers.
\<close>

record quiz =
  score :: nat
  questions :: "question list"
  questionIndex :: nat
  correctAnswers :: nat
  incorrectAnswers :: nat

definition new_Quiz :: "question list \<Rightarrow> quiz" where
  "new_Quiz qs =
     \<lparr>score = 0, questions = qs, questionIndex = 0, correctAnswers = 0, incorrectAnswers = 0\<rparr>"

definition checkAnswer :: "bool \<Rightarrow> quiz \<Rightarrow> quiz" where
  "checkAnswer isCorrect qz =
     (if isCorrect
      then qz\<lparr>correctAnswers := correctAnswers qz + 1, score := score qz + 1\<rparr>
      else qz\<lparr>incorrectAnswers := incorrectAnswers qz + 1\<rparr>)"

definition nextQuestion :: "quiz \<Rightarrow> quiz" where
  "nextQuestion qz = qz\<lparr>questionIndex := questionIndex qz + 1\<rparr>"

definition isEnded :: "quiz \<Rightarrow> bool" where
  "isEnded qz = (questionIndex qz = length (questions qz))"

text \<open>
  What \<open>QuizApp.handleAnswerClick\<close> does to the quiz for one answer: it calls
  \<open>checkAnswer\<close> with the correctness of the clicked choice and then \<open>nextQuestion\<close>.
\<close>

definition handleAnswerClick_quiz :: "bool \<Rightarrow> quiz \<Rightarrow> quiz" where
  "handleAnswerClick_quiz isCorrect qz = nextQuestion (checkAnswer isCorrect qz)"

text \<open>
  A run of answer clicks, one call of the handler for each answer in order.
\<close>

fun process_answers :: "bool list \<Rightarrow> quiz \<Rightarrow> quiz" where
  "process_answers [] qz = qz"
| "process_answers (b # bs) qz = process_answers bs (handleAnswerClick_quiz b qz)"

section \<open>The three tier arrays\<close>

text \<open>
  Both versions of \<open>questionGenerator\<close> keep three arrays \<open>easy\<close>, \<open>medium\<close> and
  \<open>hard\<close> and take questions from their fronts with \<open>Array.shift\<close>, which returns
  \<open>undefined\<close> (here \<open>None\<close>) on an empty array and leaves it unchanged.
\<close>

record tiers =
  easy :: "question list"
  medium :: "question list"
  hard :: "question list"

definition shift_easy :: "'a tiers_scheme \<Rightarrow> question option \<times> 'a tiers_scheme" where
  "shift_easy st = (case easy st of [] \<Rightarrow> (None, st) | q # rest \<Rightarrow> (Some q, st\<lparr>easy := rest\<rparr>))"

definition shift_medium :: "'a tiers_scheme \<Rightarrow> question option \<times> 'a tiers_scheme" where
  "shift_medium st =
     (case medium st of [] \<Rightarrow> (None, st) | q # rest \<Rightarrow> (Some q, st\<lparr>medium := rest\<rparr>))"

definition shift_hard :: "'a tiers_scheme \<Rightarrow> question option \<times> 'a tiers_scheme" where
  "shift_hard st = (case hard st of [] \<Rightarrow> (None, st) | q # rest \<Rightarrow> (Some q, st\<lparr>hard := rest\<rparr>))"

text \<open>
  \<open>a.shift() || b.shift()\<close>: a question object is truthy, \<open>undefined\<close> is falsy, and the
  right operand is evaluated (and its array shifted) only when the left one gave
  \<open>undefined\<close>. A chain \<open>a || b || c\<close> groups to the left.
\<close>

definition or_else ::
  "('s \<Rightarrow> question option \<times> 's) \<Rightarrow> ('s \<Rightarrow> question option \<times> 's) \<Rightarrow> 's \<Rightarrow> question option \<times> 's"
where
  "or_else a b st = (case a st of (Some q, st') \<Rightarrow> (Some q, st') | (None, st') \<Rightarrow> b st')"

text \<open>
  The result of one call of \<open>next\<close> on a generator object: a yielded question
  (\<open>done: false\<close>) or completion (\<open>done: true\<close>). The generator bodies contain no
  \<open>throw\<close>, so there is no third outcome.
\<close>

datatype outcome = Yielded question | Done

section \<open>The adaptive generator\<close>

text \<open>
  The version of \<open>questionGenerator\<close> with streak counters. \<open>currentDifficulty\<close> only
  ever holds one of the three literals \<open>'easy'\<close>, \<open>'medium'\<close>, \<open>'hard'\<close>. The value
  sent into the generator is compared with \<open>=== true\<close> and \<open>=== false\<close>; \<open>None\<close> stands
  for \<open>null\<close> and for every other value.
\<close>

datatype tier = Easy | Medium | Hard

record locals = tiers +
  consecutiveCorrect :: nat
  consecutiveMediumCorrect :: nat
  currentDifficulty :: tier
  lastAnswer :: "bool option"

text \<open>The places where the generator can be suspended: the two \<open>yield\<close> expressions.\<close>

datatype yield_point = SeedYield | LoopYield

datatype gen = NotStarted "question list" | Suspended yield_point locals | Completed

definition questionGenerator :: "question list \<Rightarrow> gen" where
  "questionGenerator qs = NotStarted qs"

text \<open>The body of the \<open>while\<close> loop up to the test of \<open>nextQuestion\<close>.\<close>

definition select_next :: "locals \<Rightarrow> question option \<times> locals" where
  "select_next st =
     (if lastAnswer st = Some True then
        (let st1 = st\<lparr>consecutiveCorrect := consecutiveCorrect st + 1\<rparr>;
             st2 = (if currentDifficulty st1 = Medium
                    then st1\<lparr>consecutiveMediumCorrect := consecutiveMediumCorrect st1 + 1\<rparr>
                    else st1)
         in if currentDifficulty st2 = Easy \<and> consecutiveCorrect st2 \<ge> 2 then
              (if length (medium st2) > 0
               then shift_medium (st2\<lparr>currentDifficulty := Medium, consecutiveMediumCorrect := 0\<rparr>)
               else or_else shift_easy shift_hard st2)
            else if currentDifficulty st2 = Medium \<and> consecutiveMediumCorrect st2 \<ge> 3 then
              (if length (hard st2) > 0
               then shift_hard (st2\<lparr>currentDifficulty := Hard\<rparr>)
               else or_else shift_medium shift_easy st2)
            else
              (if currentDifficulty st2 = Easy \<and> length (easy st2) > 0 then shift_easy st2
               else if currentDifficulty st2 = Medium \<and> length (medium st2) > 0 then shift_medium st2
               else if currentDifficulty st2 = Hard \<and> length (hard st2) > 0 then shift_hard st2
               else or_else (or_else shift_easy shift_medium) shift_hard st2))
      else if lastAnswer st = Some False then
        (let st1 = st\<lparr>consecutiveCorrect := 0\<rparr>
         in if currentDifficulty st1 = Hard then
              or_else (or_else shift_medium shift_easy) shift_hard
                (st1\<lparr>currentDifficulty := Medium, consecutiveMediumCorrect := 0\<rparr>)
            else if currentDifficulty st1 = Medium then
              or_else (or_else shift_easy shift_medium) shift_hard
                (st1\<lparr>currentDifficulty := Easy, consecutiveMediumCorrect := 0\<rparr>)
            else
              or_else (or_else shift_easy shift_medium) shift_hard st1)
      else
        or_else (or_else shift_easy shift_medium) shift_hard st)"

text \<open>
  One pass through the \<open>while\<close> loop: every pass ends at the \<open>yield\<close>, at the
  \<open>break\<close> or with the loop condition false, so a call of \<open>next\<close> makes at most one.
\<close>

definition main_loop :: "locals \<Rightarrow> outcome \<times> gen" where
  "main_loop st =
     (if length (easy st) > 0 \<or> length (medium st) > 0 \<or> length (hard st) > 0 then
        (case select_next st of
           (Some q, st') \<Rightarrow> (Yielded q, Suspended LoopYield st')
         | (None, st') \<Rightarrow> (Done, Completed))
      else (Done, Completed))"

text \<open>The local variables as the generator body sets them up before the first \<open>yield\<close>.\<close>

definition init_locals :: "question list \<Rightarrow> locals" where
  "init_locals qs =
     \<lparr>easy = filter (\<lambda>q. difficulty q = ''easy'') qs,
      medium = filter (\<lambda>q. difficulty q = ''medium'') qs,
      hard = filter (\<lambda>q. difficulty q = ''hard'') qs,
      consecutiveCorrect = 0,
      consecutiveMediumCorrect = 0,
      currentDifficulty = Easy,
      lastAnswer = None\<rparr>"

text \<open>
  The seeding after the first \<open>yield\<close>: the received value becomes \<open>lastAnswer\<close> and
  sets \<open>consecutiveCorrect\<close> to 1 or 0.
\<close>

definition seed :: "bool option \<Rightarrow> locals \<Rightarrow> locals" where
  "seed v st = st\<lparr>lastAnswer := v, consecutiveCorrect := (if v = Some True then 1 else 0)\<rparr>"

text \<open>
  \<open>gen_next g v\<close> is the call \<open>g.next(v)\<close>. The value of the first call starts the body
  and is dropped, as JavaScript does; a completed generator stays completed.
\<close>

fun gen_next :: "gen \<Rightarrow> bool option \<Rightarrow> outcome \<times> gen" where
  "gen_next (NotStarted qs) v =
     (let st = init_locals qs
      in case easy st of
           q # rest \<Rightarrow> (Yielded q, Suspended SeedYield (st\<lparr>easy := rest\<rparr>))
         | [] \<Rightarrow> main_loop st)"
| "gen_next (Suspended SeedYield st) v = main_loop (seed v st)"
| "gen_next (Suspended LoopYield st) v = main_loop (st\<lparr>lastAnswer := v\<rparr>)"
| "gen_next Completed v = (Done, Completed)"

section \<open>Running a generator\<close>

text \<open>
  \<open>run_with nxt g vs\<close> calls \<open>next\<close> on the generator once for each value of \<open>vs\<close>,
  stopping at completion. It returns the questions yielded, in order, and whether the
  generator completed.
\<close>

fun run_with ::
  "('g \<Rightarrow> bool option \<Rightarrow> outcome \<times> 'g) \<Rightarrow> 'g \<Rightarrow> bool option list \<Rightarrow> question list \<times> bool"
where
  "run_with nxt g [] = ([], False)"
| "run_with nxt g (v # vs) =
     (case nxt g v of
        (Done, g') \<Rightarrow> ([], True)
      | (Yielded q, g') \<Rightarrow> (case run_with nxt g' vs of (qs, d) \<Rightarrow> (q # qs, d)))"

text \<open>
  A session as \<open>QuizApp\<close> runs it: \<open>showNextQuestion()\<close> first calls \<open>next(null)\<close>, and
  each answer click calls \<open>next(isCorrect)\<close> with a boolean.
\<close>

definition session :: "question list \<Rightarrow> bool list \<Rightarrow> question list \<times> bool" where
  "session qs fbs = run_with gen_next (questionGenerator qs) (None # map Some fbs)"

section \<open>The first generator\<close>

text \<open>
  The version of \<open>questionGenerator\<close> in \<open>app.js\<close>: it starts with a medium question and
  then takes a harder question after a correct answer and an easier one after a wrong
  answer. Both of its \<open>yield\<close> expressions assign the received value to \<open>lastCorrect\<close>
  and continue at the head of the loop, so one suspended state stands for both.
\<close>

record locals_app = tiers +
  lastCorrect :: "bool option"

datatype gen_app = NotStarted_app "question list" | Suspended_app locals_app | Completed_app

definition questionGenerator_app :: "question list \<Rightarrow> gen_app" where
  "questionGenerator_app qs = NotStarted_app qs"

definition select_next_app :: "locals_app \<Rightarrow> question option \<times> locals_app" where
  "select_next_app st =
     (if lastCorrect st = Some True then
        (if length (hard st) > 0 then shift_hard st
         else if length (medium st) > 0 then shift_medium st
         else shift_easy st)
      else if lastCorrect st = Some False then
        (if length (easy st) > 0 then shift_easy st
         else if length (medium st) > 0 then shift_medium st
         else shift_hard st)
      else
        (if length (medium st) > 0 then shift_medium st
         else if length (easy st) > 0 then shift_easy st
         else shift_hard st))"

definition main_loop_app :: "locals_app \<Rightarrow> outcome \<times> gen_app" where
  "main_loop_app st =
     (if length (easy st) > 0 \<or> length (medium st) > 0 \<or> length (hard st) > 0 then
        (case select_next_app st of
           (Some q, st') \<Rightarrow> (Yielded q, Suspended_app st')
         | (None, st') \<Rightarrow> (Done, Completed_app))
      else (Done, Completed_app))"

definition init_locals_app :: "question list \<Rightarrow> locals_app" where
  "init_locals_app qs =
     \<lparr>easy = filter (\<lambda>q. difficulty q = ''easy'') qs,
      medium = filter (\<lambda>q. difficulty q = ''medium'') qs,
      hard = filter (\<lambda>q. difficulty q = ''hard'') qs,
      lastCorrect = None\<rparr>"

fun gen_next_app :: "gen_app \<Rightarrow> bool option \<Rightarrow> outcome \<times> gen_app" where
  "gen_next_app (NotStarted_app qs) v =
     (let st = init_locals_app qs
      in case medium st of
           q # rest \<Rightarrow> (Yielded q, Suspended_app (st\<lparr>medium := rest\<rparr>))
         | [] \<Rightarrow> main_loop_app st)"
| "gen_next_app (Suspended_app st) v = main_loop_app (st\<lparr>lastCorrect := v\<rparr>)"
| "gen_next_app Completed_app v = (Done, Completed_app)"

definition session_app :: "question list \<Rightarrow> bool list \<Rightarrow> question list \<times> bool" where
  "session_app qs fbs = run_with gen_next_app (questionGenerator_app qs) (None # map Some fbs)"

section \<open>The questions still to come\<close>

text \<open>
  The questions a generator still holds: the contents of its three arrays, which for a
  generator that has not started are the three filters of its argument.
\<close>

definition tier_questions :: "'a tiers_scheme \<Rightarrow> question list" where
  "tier_questions st = easy st @ medium st @ hard st"

fun remaining :: "gen \<Rightarrow> question list" where
  "remaining (NotStarted qs) = tier_questions (init_locals qs)"
| "remaining (Suspended p st) = tier_questions st"
| "remaining Completed = []"

fun remaining_app :: "gen_app \<Rightarrow> question list" where
  "remaining_app (NotStarted_app qs) = tier_questions (init_locals_app qs)"
| "remaining_app (Suspended_app st) = tier_questions st"
| "remaining_app Completed_app = []"

section \<open>Tier labels and an example pool\<close>

text \<open>
  The three difficulty strings that the filters of \<open>questionGenerator\<close> look for.
\<close>

definition has_tier_label :: "question \<Rightarrow> bool" where
  "has_tier_label q =
     (difficulty q = ''easy'' \<or> difficulty q = ''medium'' \<or> difficulty q = ''hard'')"

text \<open>
  Two easy, two medium and one hard question in arrival order, and a question whose
  difficulty is none of the three labels.
\<close>

definition E1 :: question where
  "E1 = \<lparr>q_text = ''E1'', choices = [''a'', ''b''], answer = ''a'', difficulty = ''easy'',
          category = ''General''\<rparr>"

definition E2 :: question where
  "E2 = \<lparr>q_text = ''E2'', choices = [''a'', ''b''], answer = ''a'', difficulty = ''easy'',
          category = ''General''\<rparr>"

definition M1 :: question where
  "M1 = \<lparr>q_text = ''M1'', choices = [''a'', ''b''], answer = ''a'', difficulty = ''medium'',
          category = ''General''\<rparr>"

definition M2 :: question where
  "M2 = \<lparr>q_text = ''M2'', choices = [''a'', ''b''], answer = ''a'', difficulty = ''medium'',
          category = ''General''\<rparr>"

definition H1 :: question where
  "H1 = \<lparr>q_text = ''H1'', choices = [''a'', ''b''], answer = ''a'', difficulty = ''hard'',
          category = ''General''\<rparr>"

definition X1 :: question where
  "X1 = \<lparr>q_text = ''X1'', choices = [''a'', ''b''], answer = ''a'', difficulty = ''expert'',
          category = ''General''\<rparr>"

definition example_pool :: "question list" where
  "example_pool = [E1, E2, M1, M2, H1]"
lemmas step_defs = main_loop_def select_next_def seed_def shift_easy_def shift_medium_def
  shift_hard_def or_else_def Let_def

section \<open>Every call of next conserves the questions\<close>

lemma select_next_mset:
  "select_next st = (r, st') \<Longrightarrow>
   mset (tier_questions st) = mset (tier_questions st') + (case r of None \<Rightarrow> {#} | Some q \<Rightarrow> {#q#})"
  by (auto simp: select_next_def Let_def shift_easy_def shift_medium_def shift_hard_def or_else_def
      tier_questions_def split: if_splits list.splits option.splits)

lemma select_next_None:
  "select_next st = (None, st') \<Longrightarrow> tier_questions st = []"
  by (auto simp: select_next_def Let_def shift_easy_def shift_medium_def shift_hard_def or_else_def
      tier_questions_def split: if_splits list.splits option.splits)

lemma main_loop_Yielded:
  assumes "main_loop st = (Yielded q, g')"
  shows "mset (tier_questions st) = add_mset q (mset (remaining g'))"
proof -
  from assms obtain st' where sel: "select_next st = (Some q, st')" and g': "g' = Suspended LoopYield st'"
    by (auto simp: main_loop_def split: if_splits prod.splits option.splits)
  from select_next_mset [OF sel] g' show ?thesis by simp
qed

lemma main_loop_Done:
  assumes "main_loop st = (Done, g')"
  shows "tier_questions st = []" and "g' = Completed"
  using assms select_next_None [of st]
  by (auto simp: main_loop_def tier_questions_def split: if_splits prod.splits option.splits)

lemma tier_questions_seed [simp]: "tier_questions (seed v st) = tier_questions st"
  by (simp add: seed_def tier_questions_def)

lemma tier_questions_lastAnswer [simp]:
  "tier_questions (st\<lparr>lastAnswer := v\<rparr>) = tier_questions st"
  by (simp add: tier_questions_def)

lemma gen_next_Yielded:
  "gen_next g v = (Yielded q, g') \<Longrightarrow> mset (remaining g) = add_mset q (mset (remaining g'))"
proof (induction g v rule: gen_next.induct)
  case (1 qs v)
  then show ?case
    by (auto simp: Let_def tier_questions_def dest: main_loop_Yielded split: list.splits)
next
  case (2 st v)
  then show ?case using main_loop_Yielded [of "seed v st" q g'] by simp
next
  case (3 st v)
  then show ?case using main_loop_Yielded [of "st\<lparr>lastAnswer := v\<rparr>" q g'] by simp
next
  case (4 v)
  then show ?case by simp
qed

lemma gen_next_Done:
  "gen_next g v = (Done, g') \<Longrightarrow> remaining g = [] \<and> g' = Completed"
proof (induction g v rule: gen_next.induct)
  case (1 qs v)
  then show ?case
    by (auto simp: Let_def dest: main_loop_Done split: list.splits)
next
  case (2 st v)
  then show ?case using main_loop_Done [of "seed v st" g'] by simp
next
  case (3 st v)
  then show ?case using main_loop_Done [of "st\<lparr>lastAnswer := v\<rparr>" g'] by simp
next
  case (4 v)
  then show ?case by simp
qed

lemma run_with_props:
  assumes stepY: "\<And>g v q g'. nxt g v = (Yielded q, g') \<Longrightarrow> mset (rem g) = add_mset q (mset (rem g'))"
    and stepD: "\<And>g v g'. nxt g v = (Done, g') \<Longrightarrow> rem g = []"
  shows "length (fst (run_with nxt g vs)) = min (length vs) (length (rem g)) \<and>
         snd (run_with nxt g vs) = (length (rem g) < length vs) \<and>
         mset (fst (run_with nxt g vs)) \<subseteq># mset (rem g)"
proof (induction vs arbitrary: g)
  case Nil
  show ?case by simp
next
  case (Cons v vs)
  obtain out g' where step: "nxt g v = (out, g')" by (cases "nxt g v")
  show ?case
  proof (cases out)
    case Done
    with step stepD [of g v g'] show ?thesis by simp
  next
    case (Yielded q)
    with step have m: "mset (rem g) = add_mset q (mset (rem g'))" by (simp add: stepY)
    then have "size (mset (rem g)) = Suc (size (mset (rem g')))" by simp
    then have len: "length (rem g) = Suc (length (rem g'))" by simp
    obtain es d where r: "run_with nxt g' vs = (es, d)" by (cases "run_with nxt g' vs")
    from Cons.IH [of g'] r have ih: "length es = min (length vs) (length (rem g'))"
      "d = (length (rem g') < length vs)" "mset es \<subseteq># mset (rem g')" by simp_all
    from step Yielded r have "run_with nxt g (v # vs) = (q # es, d)" by simp
    with ih len m show ?thesis by simp
  qed
qed

lemma run_with_complete:
  assumes stepY: "\<And>g v q g'. nxt g v = (Yielded q, g') \<Longrightarrow> mset (rem g) = add_mset q (mset (rem g'))"
    and stepD: "\<And>g v g'. nxt g v = (Done, g') \<Longrightarrow> rem g = []"
    and enough: "length (rem g) \<le> length vs"
  shows "mset (fst (run_with nxt g vs)) = mset (rem g)"
proof -
  from run_with_props [of nxt rem g vs, OF stepY stepD]
  have len: "length (fst (run_with nxt g vs)) = min (length vs) (length (rem g))"
    and sub: "mset (fst (run_with nxt g vs)) \<subseteq># mset (rem g)" by simp_all
  from len enough have big: "size (mset (rem g)) \<le> size (mset (fst (run_with nxt g vs)))" by simp
  show ?thesis
  proof (rule ccontr)
    assume "mset (fst (run_with nxt g vs)) \<noteq> mset (rem g)"
    with sub have "mset (fst (run_with nxt g vs)) \<subset># mset (rem g)"
      by (simp add: subset_mset.less_le)
    then have "size (mset (fst (run_with nxt g vs))) < size (mset (rem g))"
      by (rule mset_subset_size)
    with big show False by simp
  qed
qed

lemma select_next_app_mset:
  "select_next_app st = (r, st') \<Longrightarrow>
   mset (tier_questions st) = mset (tier_questions st') + (case r of None \<Rightarrow> {#} | Some q \<Rightarrow> {#q#})"
  by (auto simp: select_next_app_def shift_easy_def shift_medium_def shift_hard_def
      tier_questions_def split: if_splits list.splits option.splits)

lemma select_next_app_None:
  "select_next_app st = (None, st') \<Longrightarrow> tier_questions st = []"
  by (auto simp: select_next_app_def shift_easy_def shift_medium_def shift_hard_def
      tier_questions_def split: if_splits list.splits option.splits)

lemma main_loop_app_Yielded:
  assumes "main_loop_app st = (Yielded q, g')"
  shows "mset (tier_questions st) = add_mset q (mset (remaining_app g'))"
proof -
  from assms obtain st' where sel: "select_next_app st = (Some q, st')" and g': "g' = Suspended_app st'"
    by (auto simp: main_loop_app_def split: if_splits prod.splits option.splits)
  from select_next_app_mset [OF sel] g' show ?thesis by simp
qed

lemma main_loop_app_Done:
  assumes "main_loop_app st = (Done, g')"
  shows "tier_questions st = []" and "g' = Completed_app"
  using assms select_next_app_None [of st]
  by (auto simp: main_loop_app_def tier_questions_def split: if_splits prod.splits option.splits)

lemma tier_questions_lastCorrect [simp]:
  "tier_questions (st\<lparr>lastCorrect := v\<rparr>) = tier_questions st"
  by (simp add: tier_questions_def)

lemma gen_next_app_Yielded:
  "gen_next_app g v = (Yielded q, g') \<Longrightarrow>
   mset (remaining_app g) = add_mset q (mset (remaining_app g'))"
proof (cases g)
  case (NotStarted_app qs)
  assume "gen_next_app g v = (Yielded q, g')"
  with NotStarted_app show ?thesis
    by (auto simp: Let_def tier_questions_def dest: main_loop_app_Yielded split: list.splits)
next
  case (Suspended_app st)
  assume "gen_next_app g v = (Yielded q, g')"
  with Suspended_app show ?thesis
    using main_loop_app_Yielded [of "st\<lparr>lastCorrect := v\<rparr>" q g'] by simp
next
  case Completed_app
  assume "gen_next_app g v = (Yielded q, g')"
  with Completed_app show ?thesis by simp
qed

lemma gen_next_app_Done:
  "gen_next_app g v = (Done, g') \<Longrightarrow> remaining_app g = [] \<and> g' = Completed_app"
proof (cases g)
  case (NotStarted_app qs)
  assume "gen_next_app g v = (Done, g')"
  with NotStarted_app show ?thesis
    by (auto simp: Let_def dest: main_loop_app_Done split: list.splits)
next
  case (Suspended_app st)
  assume "gen_next_app g v = (Done, g')"
  with Suspended_app show ?thesis
    using main_loop_app_Done [of "st\<lparr>lastCorrect := v\<rparr>" g'] by simp
next
  case Completed_app
  assume "gen_next_app g v = (Done, g')"
  with Completed_app show ?thesis by simp
qed

lemma mset_partition:
  "mset (filter (\<lambda>q. difficulty q = ''easy'') qs) + mset (filter (\<lambda>q. difficulty q = ''medium'') qs)
     + mset (filter (\<lambda>q. difficulty q = ''hard'') qs)
   = mset (filter (\<lambda>q. difficulty q \<in> {''easy'', ''medium'', ''hard''}) qs)"
  by (induction qs) auto

lemma mset_remaining_start:
  "mset (remaining (questionGenerator qs)) =
   mset (filter (\<lambda>q. difficulty q \<in> {''easy'', ''medium'', ''hard''}) qs)"
  using mset_partition [of qs]
  by (simp add: questionGenerator_def init_locals_def tier_questions_def add.assoc)

lemma mset_remaining_app_start:
  "mset (remaining_app (questionGenerator_app qs)) =
   mset (filter (\<lambda>q. difficulty q \<in> {''easy'', ''medium'', ''hard''}) qs)"
  using mset_partition [of qs]
  by (simp add: questionGenerator_app_def init_locals_app_def tier_questions_def add.assoc)

section \<open>Whole sessions\<close>

lemma has_tier_label_filter:
  "filter (\<lambda>q. difficulty q \<in> {''easy'', ''medium'', ''hard''}) qs = filter has_tier_label qs"
  by (rule filter_cong) (auto simp: has_tier_label_def)

lemma remaining_start_labelled:
  "mset (remaining (questionGenerator qs)) = mset (filter has_tier_label qs)"
  by (simp only: mset_remaining_start has_tier_label_filter)

lemma remaining_app_start_labelled:
  "mset (remaining_app (questionGenerator_app qs)) = mset (filter has_tier_label qs)"
  by (simp only: mset_remaining_app_start has_tier_label_filter)

lemma length_remaining_start:
  "length (remaining (questionGenerator qs)) = length (filter has_tier_label qs)"
proof -
  have "size (mset (remaining (questionGenerator qs))) = size (mset (filter has_tier_label qs))"
    by (simp only: remaining_start_labelled)
  then show ?thesis by (simp only: size_mset)
qed

lemma length_remaining_app_start:
  "length (remaining_app (questionGenerator_app qs)) = length (filter has_tier_label qs)"
proof -
  have "size (mset (remaining_app (questionGenerator_app qs))) = size (mset (filter has_tier_label qs))"
    by (simp only: remaining_app_start_labelled)
  then show ?thesis by (simp only: size_mset)
qed

lemma session_props:
  "length (fst (session qs fbs)) = min (Suc (length fbs)) (length (filter has_tier_label qs))"
  "snd (session qs fbs) = (length (filter has_tier_label qs) \<le> length fbs)"
  "mset (fst (session qs fbs)) \<subseteq># mset (filter has_tier_label qs)"
  using run_with_props [of gen_next remaining "questionGenerator qs" "None # map Some fbs",
      OF gen_next_Yielded]
    gen_next_Done
  unfolding session_def length_remaining_start remaining_start_labelled
  by (auto simp: less_Suc_eq_le)

lemma session_complete:
  assumes "length (filter has_tier_label qs) \<le> length fbs"
  shows "mset (fst (session qs fbs)) = mset (filter has_tier_label qs)"
proof -
  have "mset (fst (run_with gen_next (questionGenerator qs) (None # map Some fbs)))
      = mset (remaining (questionGenerator qs))"
  proof (rule run_with_complete)
    show "\<And>g v q g'. gen_next g v = (Yielded q, g') \<Longrightarrow>
        mset (remaining g) = add_mset q (mset (remaining g'))"
      by (rule gen_next_Yielded)
    show "\<And>g v g'. gen_next g v = (Done, g') \<Longrightarrow> remaining g = []"
      by (simp add: gen_next_Done)
    show "length (remaining (questionGenerator qs)) \<le> length (None # map Some fbs)"
      using assms by (simp add: length_remaining_start)
  qed
  then show ?thesis by (simp add: session_def remaining_start_labelled)
qed


lemma session_app_props:
  "length (fst (session_app qs fbs)) = min (Suc (length fbs)) (length (filter has_tier_label qs))"
  "snd (session_app qs fbs) = (length (filter has_tier_label qs) \<le> length fbs)"
  "mset (fst (session_app qs fbs)) \<subseteq># mset (filter has_tier_label qs)"
  using run_with_props [of gen_next_app remaining_app "questionGenerator_app qs"
      "None # map Some fbs", OF gen_next_app_Yielded]
    gen_next_app_Done
  unfolding session_app_def length_remaining_app_start remaining_app_start_labelled
  by (auto simp: less_Suc_eq_le)

lemma session_app_complete:
  assumes "length (filter has_tier_label qs) \<le> length fbs"
  shows "mset (fst (session_app qs fbs)) = mset (filter has_tier_label qs)"
proof -
  have "mset (fst (run_with gen_next_app (questionGenerator_app qs) (None # map Some fbs)))
      = mset (remaining_app (questionGenerator_app qs))"
  proof (rule run_with_complete)
    show "\<And>g v q g'. gen_next_app g v = (Yielded q, g') \<Longrightarrow>
        mset (remaining_app g) = add_mset q (mset (remaining_app g'))"
      by (rule gen_next_app_Yielded)
    show "\<And>g v g'. gen_next_app g v = (Done, g') \<Longrightarrow> remaining_app g = []"
      by (simp add: gen_next_app_Done)
    show "length (remaining_app (questionGenerator_app qs)) \<le> length (None # map Some fbs)"
      using assms by (simp add: length_remaining_app_start)
  qed
  then show ?thesis by (simp add: session_app_def remaining_app_start_labelled)
qed

lemma run_emits_labelled:
  assumes "q \<in> set (fst (run_with gen_next (questionGenerator qs) vs))"
  shows "has_tier_label q \<and> q \<in> set qs"
proof -
  have "mset (fst (run_with gen_next (questionGenerator qs) vs))
      \<subseteq># mset (remaining (questionGenerator qs))"
    using run_with_props [of gen_next remaining "questionGenerator qs" vs, OF gen_next_Yielded]
      gen_next_Done by simp
  then have "mset (fst (run_with gen_next (questionGenerator qs) vs))
      \<subseteq># mset (filter has_tier_label qs)"
    by (simp only: remaining_start_labelled)
  from set_mset_mono [OF this] assms have "q \<in> set (filter has_tier_label qs)"
    by (auto simp only: set_mset_mset)
  then show ?thesis by simp
qed

lemma run_app_emits_labelled:
  assumes "q \<in> set (fst (run_with gen_next_app (questionGenerator_app qs) vs))"
  shows "has_tier_label q \<and> q \<in> set qs"
proof -
  have "mset (fst (run_with gen_next_app (questionGenerator_app qs) vs))
      \<subseteq># mset (remaining_app (questionGenerator_app qs))"
    using run_with_props [of gen_next_app remaining_app "questionGenerator_app qs" vs,
        OF gen_next_app_Yielded]
      gen_next_app_Done by simp
  then have "mset (fst (run_with gen_next_app (questionGenerator_app qs) vs))
      \<subseteq># mset (filter has_tier_label qs)"
    by (simp only: remaining_app_start_labelled)
  from set_mset_mono [OF this] assms have "q \<in> set (filter has_tier_label qs)"
    by (auto simp only: set_mset_mset)
  then show ?thesis by simp
qed

lemma filter_all_labelled: "\<forall>q\<in>set qs. has_tier_label q \<Longrightarrow> filter has_tier_label qs = qs"
  by simp

lemma length_filter_labelled_iff:
  "(length (filter has_tier_label qs) = length qs) = (\<forall>q\<in>set qs. has_tier_label q)"
proof
  assume eq: "length (filter has_tier_label qs) = length qs"
  show "\<forall>q\<in>set qs. has_tier_label q"
  proof
    fix q assume "q \<in> set qs"
    show "has_tier_label q"
    proof (rule ccontr)
      assume "\<not> has_tier_label q"
      with \<open>q \<in> set qs\<close> have "length (filter has_tier_label qs) < length qs"
        by (rule length_filter_less)
      with eq show False by simp
    qed
  qed
next
  assume "\<forall>q\<in>set qs. has_tier_label q"
  then show "length (filter has_tier_label qs) = length qs" by simp
qed

lemma mset_filter_labelled_iff:
  "(mset (filter has_tier_label qs) = mset qs) = (\<forall>q\<in>set qs. has_tier_label q)"
proof
  assume "mset (filter has_tier_label qs) = mset qs"
  then have "size (mset (filter has_tier_label qs)) = size (mset qs)" by (rule arg_cong)
  then have "length (filter has_tier_label qs) = length qs" by (simp only: size_mset)
  then show "\<forall>q\<in>set qs. has_tier_label q" by (simp only: length_filter_labelled_iff)
next
  assume "\<forall>q\<in>set qs. has_tier_label q"
  then show "mset (filter has_tier_label qs) = mset qs" by simp
qed

lemma gen_next_Done_iff: "(fst (gen_next g v) = Done) = (remaining g = [])"
proof (cases "gen_next g v")
  case (Pair out g')
  show ?thesis
  proof (cases out)
    case (Yielded q)
    with Pair have "mset (remaining g) = add_mset q (mset (remaining g'))"
      by (simp add: gen_next_Yielded)
    then have "remaining g \<noteq> []" by auto
    with Pair Yielded show ?thesis by simp
  next
    case Done
    with Pair gen_next_Done [of g v g'] show ?thesis by simp
  qed
qed

lemma gen_next_app_Done_iff: "(fst (gen_next_app g v) = Done) = (remaining_app g = [])"
proof (cases "gen_next_app g v")
  case (Pair out g')
  show ?thesis
  proof (cases out)
    case (Yielded q)
    with Pair have "mset (remaining_app g) = add_mset q (mset (remaining_app g'))"
      by (simp add: gen_next_app_Yielded)
    then have "remaining_app g \<noteq> []" by auto
    with Pair Yielded show ?thesis by simp
  next
    case Done
    with Pair gen_next_app_Done [of g v g'] show ?thesis by simp
  qed
qed

section \<open>Conservation\<close>

text \<open>
  Claim C1. When every input question carries one of the three tier labels and the
  session is run to its end (one boolean answer for each question, whatever the answers
  are), the generator completes and the multiset of the questions it yielded is the
  multiset of the input: nothing is yielded twice and nothing is left out. This holds
  for the adaptive generator and for the first generator.
\<close>

theorem generator_conservation:
  assumes labelled: "\<forall>q\<in>set qs. has_tier_label q"
    and full: "length qs \<le> length fbs"
  shows "snd (session qs fbs) \<and> mset (fst (session qs fbs)) = mset qs \<and>
         snd (session_app qs fbs) \<and> mset (fst (session_app qs fbs)) = mset qs"
proof -
  from labelled have f: "filter has_tier_label qs = qs" by (rule filter_all_labelled)
  with full have enough: "length (filter has_tier_label qs) \<le> length fbs" by simp
  from enough have "snd (session qs fbs)" by (simp only: session_props(2))
  moreover from session_complete [OF enough] f have "mset (fst (session qs fbs)) = mset qs"
    by simp
  moreover from enough have "snd (session_app qs fbs)" by (simp only: session_app_props(2))
  moreover from session_app_complete [OF enough] f
  have "mset (fst (session_app qs fbs)) = mset qs" by simp
  ultimately show ?thesis by blast
qed

text \<open>The example pool with the answers correct, wrong, correct, correct, wrong.\<close>

theorem generator_conservation_witness:
  "list_all has_tier_label example_pool \<and>
   length example_pool \<le> length [True, False, True, True, False] \<and>
   snd (session example_pool [True, False, True, True, False]) \<and>
   mset (fst (session example_pool [True, False, True, True, False])) = mset example_pool \<and>
   snd (session_app example_pool [True, False, True, True, False]) \<and>
   mset (fst (session_app example_pool [True, False, True, True, False])) = mset example_pool"
proof -
  have h1: "\<forall>q\<in>set example_pool. has_tier_label q"
    by (simp add: example_pool_def has_tier_label_def E1_def E2_def M1_def M2_def H1_def)
  have h2: "length example_pool \<le> length [True, False, True, True, False]"
    by (simp add: example_pool_def)
  from h1 have l: "list_all has_tier_label example_pool" by (simp only: list_all_iff)
  from generator_conservation [OF h1 h2] l h2 show ?thesis by blast
qed

section \<open>Termination\<close>

text \<open>
  Claim C2. For a pool of \<open>N\<close> questions that all carry a tier label, a session with
  \<open>k\<close> answers yields \<open>min (k + 1) N\<close> questions and has completed exactly when
  \<open>N \<le> k\<close>: the generator yields exactly \<open>N\<close> questions and then completes. A call of
  \<open>next\<close> reports completion exactly when the three arrays of the generator are all
  empty, in any state of the generator, so it never completes while a question remains.
  Both generators behave so.
\<close>

theorem generator_terminates:
  assumes labelled: "\<forall>q\<in>set qs. has_tier_label q"
  shows "length (fst (session qs fbs)) = min (Suc (length fbs)) (length qs) \<and>
         snd (session qs fbs) = (length qs \<le> length fbs) \<and>
         (fst (gen_next g v) = Done) = (remaining g = []) \<and>
         length (fst (session_app qs fbs)) = min (Suc (length fbs)) (length qs) \<and>
         snd (session_app qs fbs) = (length qs \<le> length fbs) \<and>
         (fst (gen_next_app ga v) = Done) = (remaining_app ga = [])"
proof -
  from labelled have f: "filter has_tier_label qs = qs" by (rule filter_all_labelled)
  show ?thesis
    using session_props(1,2) [of qs fbs] session_app_props(1,2) [of qs fbs]
      gen_next_Done_iff [of g v] gen_next_app_Done_iff [of ga v]
    by (simp only: f simp_thms)
qed

text \<open>The example pool: five answers give five questions and completion.\<close>

theorem generator_terminates_witness:
  "list_all has_tier_label example_pool \<and>
   length (fst (session example_pool [True, False, True, True, False])) = 5 \<and>
   snd (session example_pool [True, False, True, True, False]) \<and>
   length (fst (session example_pool [True, False])) = 3 \<and>
   \<not> snd (session example_pool [True, False]) \<and>
   fst (gen_next (questionGenerator example_pool) None) \<noteq> Done \<and>
   length (fst (session_app example_pool [True, False, True, True, False])) = 5 \<and>
   snd (session_app example_pool [True, False, True, True, False])"
proof -
  have h1: "\<forall>q\<in>set example_pool. has_tier_label q"
    by (simp add: example_pool_def has_tier_label_def E1_def E2_def M1_def M2_def H1_def)
  have n: "length example_pool = 5" by (simp add: example_pool_def)
  have r: "remaining (questionGenerator example_pool) \<noteq> []"
    by (simp add: questionGenerator_def example_pool_def init_locals_def tier_questions_def
        E1_def)
  from generator_terminates [where qs = example_pool and fbs = "[True, False, True, True, False]"
      and g = "questionGenerator example_pool" and v = None
      and ga = "questionGenerator_app example_pool", OF h1]
  have full: "length (fst (session example_pool [True, False, True, True, False])) = 5"
    "snd (session example_pool [True, False, True, True, False])"
    "fst (gen_next (questionGenerator example_pool) None) \<noteq> Done"
    "length (fst (session_app example_pool [True, False, True, True, False])) = 5"
    "snd (session_app example_pool [True, False, True, True, False])"
    using n r by simp_all
  from generator_terminates [where qs = example_pool and fbs = "[True, False]"
      and g = "questionGenerator example_pool" and v = None
      and ga = "questionGenerator_app example_pool", OF h1]
  have part: "length (fst (session example_pool [True, False])) = 3"
    "\<not> snd (session example_pool [True, False])"
    using n by simp_all
  from h1 have l: "list_all has_tier_label example_pool" by (simp only: list_all_iff)
  from l full part show ?thesis by blast
qed

section \<open>The canonical example\<close>

text \<open>
  Claim C3. The claim expects the pool E1, E2 (easy), M1, M2 (medium), H1 (hard) with
  three correct answers to give E1, then E2, then M1. The generator gives E1, M1, M2, E2:
  the value received at the first \<open>yield\<close> sets \<open>consecutiveCorrect\<close> to 1 and the first
  pass of the loop increments it again for the same answer, so one correct answer
  already reaches the threshold that the comment in the source describes as two correct
  answers. The second question yielded is M1, not E2.
\<close>

theorem canonical_example_trace:
  "fst (session example_pool [True, True, True]) = [E1, M1, M2, E2]"
  by code_simp

section \<open>Promotion\<close>

text \<open>
  Claim C4. The generator is suspended with \<open>currentDifficulty\<close> easy and receives a
  correct answer that brings \<open>consecutiveCorrect\<close> to at least 2 (at the first
  \<open>yield\<close> every correct answer does; at the \<open>yield\<close> of the loop the counter must be at least
  1 before). If \<open>medium\<close> is non-empty the tier becomes medium,
  \<open>consecutiveMediumCorrect\<close> becomes 0 and the front medium question is yielded. If
  \<open>medium\<close> is empty the tier stays easy and the front easy question is yielded, or the
  front hard question when \<open>easy\<close> is empty too; with all three arrays empty the
  generator completes.
\<close>

theorem promotion_easy_to_medium:
  assumes "currentDifficulty st = Easy" and "p = SeedYield \<or> 1 \<le> consecutiveCorrect st"
  shows "gen_next (Suspended p st) (Some True) =
     (let st' = st\<lparr>lastAnswer := Some True,
                    consecutiveCorrect := (if p = SeedYield then 2 else consecutiveCorrect st + 1)\<rparr>
      in case medium st of
           m # ms \<Rightarrow>
             (Yielded m, Suspended LoopYield
                (st'\<lparr>currentDifficulty := Medium, consecutiveMediumCorrect := 0, medium := ms\<rparr>))
         | [] \<Rightarrow>
             (case easy st of
                e # es \<Rightarrow> (Yielded e, Suspended LoopYield (st'\<lparr>easy := es\<rparr>))
              | [] \<Rightarrow>
                  (case hard st of
                     h # hs \<Rightarrow> (Yielded h, Suspended LoopYield (st'\<lparr>hard := hs\<rparr>))
                   | [] \<Rightarrow> (Done, Completed))))"
  using assms by (cases p) (auto simp: step_defs split: list.splits)

text \<open>One correct answer so far at easy, and a second one arrives.\<close>

theorem promotion_easy_to_medium_witness:
  "currentDifficulty
     \<lparr>easy = [E2], medium = [M1, M2], hard = [H1], consecutiveCorrect = 1,
        consecutiveMediumCorrect = 0, currentDifficulty = Easy, lastAnswer = Some True\<rparr> = Easy \<and>
   (LoopYield = SeedYield \<or>
    1 \<le> consecutiveCorrect
      \<lparr>easy = [E2], medium = [M1, M2], hard = [H1], consecutiveCorrect = 1,
        consecutiveMediumCorrect = 0, currentDifficulty = Easy, lastAnswer = Some True\<rparr>) \<and>
   gen_next
     (Suspended LoopYield
       \<lparr>easy = [E2], medium = [M1, M2], hard = [H1], consecutiveCorrect = 1,
        consecutiveMediumCorrect = 0, currentDifficulty = Easy, lastAnswer = Some True\<rparr>)
     (Some True) =
   (Yielded M1,
    Suspended LoopYield
      \<lparr>easy = [E2], medium = [M2], hard = [H1], consecutiveCorrect = 2,
           consecutiveMediumCorrect = 0, currentDifficulty = Medium, lastAnswer = Some True\<rparr>)"
  using promotion_easy_to_medium
    [where p = LoopYield and st = "\<lparr>easy = [E2], medium = [M1, M2], hard = [H1], consecutiveCorrect = 1,
        consecutiveMediumCorrect = 0, currentDifficulty = Easy, lastAnswer = Some True\<rparr>"]
  by simp

text \<open>
  Claim C5. The generator is suspended with \<open>currentDifficulty\<close> medium and receives a
  correct answer that brings \<open>consecutiveMediumCorrect\<close> to at least 3. If \<open>hard\<close> is
  non-empty the tier becomes hard and the front hard question is yielded. If \<open>hard\<close> is
  empty the tier stays medium and the front medium question is yielded, or the front
  easy question when \<open>medium\<close> is empty too; with all three arrays empty the generator
  completes.
\<close>

theorem promotion_medium_to_hard:
  assumes "currentDifficulty st = Medium" and "2 \<le> consecutiveMediumCorrect st"
  shows "gen_next (Suspended p st) (Some True) =
     (let st' = st\<lparr>lastAnswer := Some True,
                    consecutiveCorrect := (if p = SeedYield then 2 else consecutiveCorrect st + 1),
                    consecutiveMediumCorrect := consecutiveMediumCorrect st + 1\<rparr>
      in case hard st of
           h # hs \<Rightarrow> (Yielded h, Suspended LoopYield (st'\<lparr>currentDifficulty := Hard, hard := hs\<rparr>))
         | [] \<Rightarrow>
             (case medium st of
                m # ms \<Rightarrow> (Yielded m, Suspended LoopYield (st'\<lparr>medium := ms\<rparr>))
              | [] \<Rightarrow>
                  (case easy st of
                     e # es \<Rightarrow> (Yielded e, Suspended LoopYield (st'\<lparr>easy := es\<rparr>))
                   | [] \<Rightarrow> (Done, Completed))))"
  using assms by (cases p) (auto simp: step_defs split: list.splits)

text \<open>Two correct answers so far at medium, and a third one arrives.\<close>

theorem promotion_medium_to_hard_witness:
  "currentDifficulty
     \<lparr>easy = [E2], medium = [M2], hard = [H1], consecutiveCorrect = 4,
        consecutiveMediumCorrect = 2, currentDifficulty = Medium, lastAnswer = Some True\<rparr> = Medium \<and>
   2 \<le> consecutiveMediumCorrect
      \<lparr>easy = [E2], medium = [M2], hard = [H1], consecutiveCorrect = 4,
        consecutiveMediumCorrect = 2, currentDifficulty = Medium, lastAnswer = Some True\<rparr> \<and>
   gen_next
     (Suspended LoopYield
       \<lparr>easy = [E2], medium = [M2], hard = [H1], consecutiveCorrect = 4,
        consecutiveMediumCorrect = 2, currentDifficulty = Medium, lastAnswer = Some True\<rparr>)
     (Some True) =
   (Yielded H1,
    Suspended LoopYield
      \<lparr>easy = [E2], medium = [M2], hard = [], consecutiveCorrect = 5,
           consecutiveMediumCorrect = 3, currentDifficulty = Hard, lastAnswer = Some True\<rparr>)"
  using promotion_medium_to_hard
    [where p = LoopYield and st = "\<lparr>easy = [E2], medium = [M2], hard = [H1], consecutiveCorrect = 4,
        consecutiveMediumCorrect = 2, currentDifficulty = Medium, lastAnswer = Some True\<rparr>"]
  by simp

section \<open>Demotion\<close>

text \<open>
  Claim C6. On an incorrect answer \<open>consecutiveCorrect\<close> becomes 0 and the tier goes
  down by one level. From hard the tier becomes medium (never easy),
  \<open>consecutiveMediumCorrect\<close> becomes 0 and the question comes from \<open>medium\<close>, else
  \<open>easy\<close>, else \<open>hard\<close>. From medium the tier becomes easy, \<open>consecutiveMediumCorrect\<close>
  becomes 0 and the question comes from \<open>easy\<close>, else \<open>medium\<close>, else \<open>hard\<close>. At easy
  the tier stays easy and the question comes from \<open>easy\<close>, else \<open>medium\<close>, else \<open>hard\<close>.
  With all three arrays empty the generator completes.
\<close>

theorem demotion_single_step:
  "gen_next (Suspended p st) (Some False) =
     (let st' = st\<lparr>lastAnswer := Some False, consecutiveCorrect := 0\<rparr>
      in case currentDifficulty st of
           Hard \<Rightarrow>
             (let d = st'\<lparr>currentDifficulty := Medium, consecutiveMediumCorrect := 0\<rparr>
              in case medium st of
                   m # ms \<Rightarrow> (Yielded m, Suspended LoopYield (d\<lparr>medium := ms\<rparr>))
                 | [] \<Rightarrow>
                     (case easy st of
                        e # es \<Rightarrow> (Yielded e, Suspended LoopYield (d\<lparr>easy := es\<rparr>))
                      | [] \<Rightarrow>
                          (case hard st of
                             h # hs \<Rightarrow> (Yielded h, Suspended LoopYield (d\<lparr>hard := hs\<rparr>))
                           | [] \<Rightarrow> (Done, Completed))))
         | Medium \<Rightarrow>
             (let d = st'\<lparr>currentDifficulty := Easy, consecutiveMediumCorrect := 0\<rparr>
              in case easy st of
                   e # es \<Rightarrow> (Yielded e, Suspended LoopYield (d\<lparr>easy := es\<rparr>))
                 | [] \<Rightarrow>
                     (case medium st of
                        m # ms \<Rightarrow> (Yielded m, Suspended LoopYield (d\<lparr>medium := ms\<rparr>))
                      | [] \<Rightarrow>
                          (case hard st of
                             h # hs \<Rightarrow> (Yielded h, Suspended LoopYield (d\<lparr>hard := hs\<rparr>))
                           | [] \<Rightarrow> (Done, Completed))))
         | Easy \<Rightarrow>
             (case easy st of
                e # es \<Rightarrow> (Yielded e, Suspended LoopYield (st'\<lparr>easy := es\<rparr>))
              | [] \<Rightarrow>
                  (case medium st of
                     m # ms \<Rightarrow> (Yielded m, Suspended LoopYield (st'\<lparr>medium := ms\<rparr>))
                   | [] \<Rightarrow>
                       (case hard st of
                          h # hs \<Rightarrow> (Yielded h, Suspended LoopYield (st'\<lparr>hard := hs\<rparr>))
                        | [] \<Rightarrow> (Done, Completed)))))"
  by (cases p; cases "currentDifficulty st") (auto simp: step_defs split: list.splits)

section \<open>The opening move\<close>

text \<open>
  Claim C7. The claim has three parts. The first call of \<open>next\<close> yields the oldest easy
  question when there is one and suspends with the tier easy and both counters 0; when
  there is no easy question the first question is the front of \<open>medium\<close>, else of
  \<open>hard\<close>, with the tier and the counters at their initial values. Both hold of the
  generator. The third part, that a correct first answer leaves \<open>consecutiveCorrect\<close>
  at 1 with the tier still easy, does not: the assignment of 1 after the first \<open>yield\<close>
  is followed in the same call of \<open>next\<close> by the first pass of the loop, which
  increments the counter for the same answer. After a correct first answer the
  generator is therefore suspended with \<open>consecutiveCorrect\<close> 2, and with the tier
  medium and a medium question yielded whenever \<open>medium\<close> is non-empty. After an
  incorrect first answer the counter is 0 and the tier easy. On the example pool the
  first correct answer yields M1 and leaves the counter at 2.
\<close>

theorem opening_move:
  "gen_next (questionGenerator qs) v =
     (case filter (\<lambda>q. difficulty q = ''easy'') qs of
        e # es \<Rightarrow> (Yielded e, Suspended SeedYield ((init_locals qs)\<lparr>easy := es\<rparr>))
      | [] \<Rightarrow>
          (case filter (\<lambda>q. difficulty q = ''medium'') qs of
             m # ms \<Rightarrow> (Yielded m, Suspended LoopYield ((init_locals qs)\<lparr>medium := ms\<rparr>))
           | [] \<Rightarrow>
               (case filter (\<lambda>q. difficulty q = ''hard'') qs of
                  h # hs \<Rightarrow> (Yielded h, Suspended LoopYield ((init_locals qs)\<lparr>hard := hs\<rparr>))
                | [] \<Rightarrow> (Done, Completed)))) \<and>
   currentDifficulty (init_locals qs) = Easy \<and>
   consecutiveCorrect (init_locals qs) = 0 \<and>
   consecutiveMediumCorrect (init_locals qs) = 0 \<and>
   lastAnswer (init_locals qs) = None \<and>
   gen_next (Suspended SeedYield ((init_locals qs)\<lparr>easy := es\<rparr>)) (Some True) =
     (let st' = (init_locals qs)\<lparr>easy := es, lastAnswer := Some True, consecutiveCorrect := 2\<rparr>
      in case filter (\<lambda>q. difficulty q = ''medium'') qs of
           m # ms \<Rightarrow>
             (Yielded m, Suspended LoopYield
                (st'\<lparr>currentDifficulty := Medium, consecutiveMediumCorrect := 0, medium := ms\<rparr>))
         | [] \<Rightarrow>
             (case es of
                e # es' \<Rightarrow> (Yielded e, Suspended LoopYield (st'\<lparr>easy := es'\<rparr>))
              | [] \<Rightarrow>
                  (case filter (\<lambda>q. difficulty q = ''hard'') qs of
                     h # hs \<Rightarrow> (Yielded h, Suspended LoopYield (st'\<lparr>hard := hs\<rparr>))
                   | [] \<Rightarrow> (Done, Completed)))) \<and>
   gen_next (Suspended SeedYield ((init_locals qs)\<lparr>easy := es\<rparr>)) (Some False) =
     (let st' = (init_locals qs)\<lparr>easy := es, lastAnswer := Some False, consecutiveCorrect := 0\<rparr>
      in case es of
           e # es' \<Rightarrow> (Yielded e, Suspended LoopYield (st'\<lparr>easy := es'\<rparr>))
         | [] \<Rightarrow>
             (case filter (\<lambda>q. difficulty q = ''medium'') qs of
                m # ms \<Rightarrow> (Yielded m, Suspended LoopYield (st'\<lparr>medium := ms\<rparr>))
              | [] \<Rightarrow>
                  (case filter (\<lambda>q. difficulty q = ''hard'') qs of
                     h # hs \<Rightarrow> (Yielded h, Suspended LoopYield (st'\<lparr>hard := hs\<rparr>))
                   | [] \<Rightarrow> (Done, Completed)))) \<and>
   gen_next (questionGenerator example_pool) None =
     (Yielded E1,
      Suspended SeedYield
        \<lparr>easy = [E2], medium = [M1, M2], hard = [H1], consecutiveCorrect = 0,
           consecutiveMediumCorrect = 0, currentDifficulty = Easy, lastAnswer = None\<rparr>) \<and>
   gen_next
     (Suspended SeedYield
        \<lparr>easy = [E2], medium = [M1, M2], hard = [H1], consecutiveCorrect = 0,
           consecutiveMediumCorrect = 0, currentDifficulty = Easy, lastAnswer = None\<rparr>)
     (Some True) =
     (Yielded M1,
      Suspended LoopYield
        \<lparr>easy = [E2], medium = [M2], hard = [H1], consecutiveCorrect = 2,
           consecutiveMediumCorrect = 0, currentDifficulty = Medium, lastAnswer = Some True\<rparr>)"
proof -
  have first: "gen_next (questionGenerator qs) v =
     (case filter (\<lambda>q. difficulty q = ''easy'') qs of
        e # es \<Rightarrow> (Yielded e, Suspended SeedYield ((init_locals qs)\<lparr>easy := es\<rparr>))
      | [] \<Rightarrow>
          (case filter (\<lambda>q. difficulty q = ''medium'') qs of
             m # ms \<Rightarrow> (Yielded m, Suspended LoopYield ((init_locals qs)\<lparr>medium := ms\<rparr>))
           | [] \<Rightarrow>
               (case filter (\<lambda>q. difficulty q = ''hard'') qs of
                  h # hs \<Rightarrow> (Yielded h, Suspended LoopYield ((init_locals qs)\<lparr>hard := hs\<rparr>))
                | [] \<Rightarrow> (Done, Completed))))"
    by (simp add: questionGenerator_def init_locals_def step_defs split: list.splits)
  have correct: "gen_next (Suspended SeedYield ((init_locals qs)\<lparr>easy := es\<rparr>)) (Some True) =
     (let st' = (init_locals qs)\<lparr>easy := es, lastAnswer := Some True, consecutiveCorrect := 2\<rparr>
      in case filter (\<lambda>q. difficulty q = ''medium'') qs of
           m # ms \<Rightarrow>
             (Yielded m, Suspended LoopYield
                (st'\<lparr>currentDifficulty := Medium, consecutiveMediumCorrect := 0, medium := ms\<rparr>))
         | [] \<Rightarrow>
             (case es of
                e # es' \<Rightarrow> (Yielded e, Suspended LoopYield (st'\<lparr>easy := es'\<rparr>))
              | [] \<Rightarrow>
                  (case filter (\<lambda>q. difficulty q = ''hard'') qs of
                     h # hs \<Rightarrow> (Yielded h, Suspended LoopYield (st'\<lparr>hard := hs\<rparr>))
                   | [] \<Rightarrow> (Done, Completed))))"
    by (simp add: init_locals_def step_defs split: list.splits)
  have wrong: "gen_next (Suspended SeedYield ((init_locals qs)\<lparr>easy := es\<rparr>)) (Some False) =
     (let st' = (init_locals qs)\<lparr>easy := es, lastAnswer := Some False, consecutiveCorrect := 0\<rparr>
      in case es of
           e # es' \<Rightarrow> (Yielded e, Suspended LoopYield (st'\<lparr>easy := es'\<rparr>))
         | [] \<Rightarrow>
             (case filter (\<lambda>q. difficulty q = ''medium'') qs of
                m # ms \<Rightarrow> (Yielded m, Suspended LoopYield (st'\<lparr>medium := ms\<rparr>))
              | [] \<Rightarrow>
                  (case filter (\<lambda>q. difficulty q = ''hard'') qs of
                     h # hs \<Rightarrow> (Yielded h, Suspended LoopYield (st'\<lparr>hard := hs\<rparr>))
                   | [] \<Rightarrow> (Done, Completed))))"
    by (simp add: init_locals_def step_defs split: list.splits)
  have c1: "gen_next (questionGenerator example_pool) None =
     (Yielded E1,
      Suspended SeedYield
        \<lparr>easy = [E2], medium = [M1, M2], hard = [H1], consecutiveCorrect = 0,
           consecutiveMediumCorrect = 0, currentDifficulty = Easy, lastAnswer = None\<rparr>)"
    by (simp add: questionGenerator_def init_locals_def example_pool_def E1_def E2_def M1_def
        M2_def H1_def)
  have c2: "gen_next
     (Suspended SeedYield
        \<lparr>easy = [E2], medium = [M1, M2], hard = [H1], consecutiveCorrect = 0,
           consecutiveMediumCorrect = 0, currentDifficulty = Easy, lastAnswer = None\<rparr>)
     (Some True) =
     (Yielded M1,
      Suspended LoopYield
        \<lparr>easy = [E2], medium = [M2], hard = [H1], consecutiveCorrect = 2,
           consecutiveMediumCorrect = 0, currentDifficulty = Medium, lastAnswer = Some True\<rparr>)"
    by (simp add: step_defs)
  have init: "currentDifficulty (init_locals qs) = Easy"
    "consecutiveCorrect (init_locals qs) = 0"
    "consecutiveMediumCorrect (init_locals qs) = 0"
    "lastAnswer (init_locals qs) = None"
    by (simp_all add: init_locals_def)
  from first init correct wrong c1 c2 show ?thesis by (intro conjI)
qed

section \<open>The empty pool\<close>

text \<open>
  Claim C8, as the code has it. Nothing in \<open>Quiz\<close> or \<open>questionGenerator\<close> raises an
  error for an empty input: the quiz built from the empty list has all counters 0 and
  is ended at once, the first call of \<open>next\<close> on the generator reports completion
  without yielding, and a session yields nothing and completes.
\<close>

theorem empty_pool_no_error:
  "new_Quiz [] =
     \<lparr>score = 0, questions = [], questionIndex = 0, correctAnswers = 0, incorrectAnswers = 0\<rparr> \<and>
   isEnded (new_Quiz []) \<and>
   gen_next (questionGenerator []) v = (Done, Completed) \<and>
   session [] fbs = ([], True)"
  by (simp add: new_Quiz_def isEnded_def session_def questionGenerator_def init_locals_def
      main_loop_def)

text \<open>
  The claim that the first request on an empty pool raises \<open>EmptyPoolError\<close> fails:
  the call returns normally with \<open>done\<close> true.
\<close>

theorem empty_pool_completes_counterexample:
  "gen_next (questionGenerator []) None = (Done, Completed)"
  by (simp add: questionGenerator_def init_locals_def main_loop_def)

section \<open>The scorer\<close>

lemma handleAnswerClick_quiz_fields:
  "score (handleAnswerClick_quiz b qz) = score qz + (if b then 1 else 0)"
  "correctAnswers (handleAnswerClick_quiz b qz) = correctAnswers qz + (if b then 1 else 0)"
  "incorrectAnswers (handleAnswerClick_quiz b qz) = incorrectAnswers qz + (if b then 0 else 1)"
  "questionIndex (handleAnswerClick_quiz b qz) = questionIndex qz + 1"
  "questions (handleAnswerClick_quiz b qz) = questions qz"
  by (simp_all add: handleAnswerClick_quiz_def nextQuestion_def checkAnswer_def)

lemma process_answers_fields:
  "score (process_answers bs qz) = score qz + length (filter (\<lambda>b. b) bs)"
  "correctAnswers (process_answers bs qz) = correctAnswers qz + length (filter (\<lambda>b. b) bs)"
  "incorrectAnswers (process_answers bs qz) = incorrectAnswers qz + length (filter (\<lambda>b. \<not> b) bs)"
  "questionIndex (process_answers bs qz) = questionIndex qz + length bs"
  "questions (process_answers bs qz) = questions qz"
  by (induction bs arbitrary: qz) (simp_all add: handleAnswerClick_quiz_fields)

text \<open>
  Claim C9. For every answer handled, a correct answer adds one to \<open>correctAnswers\<close>
  and exactly one to \<open>score\<close> and leaves \<open>incorrectAnswers\<close> alone; an incorrect
  answer adds one to \<open>incorrectAnswers\<close> and leaves \<open>score\<close> and \<open>correctAnswers\<close>
  alone. This holds of \<open>checkAnswer\<close> and of the whole handling of an answer click,
  which also moves \<open>questionIndex\<close> on by exactly one whatever the outcome and keeps
  the list of questions. The question answered plays no part, so nothing is weighted by
  difficulty. \<open>isEnded\<close> holds exactly when \<open>questionIndex\<close> equals the number of
  questions. Hence, after any sequence of answers to a new quiz, \<open>score\<close> and
  \<open>correctAnswers\<close> are the number of correct answers, \<open>incorrectAnswers\<close> is the
  number of incorrect ones, \<open>questionIndex\<close> is the number of answers, and the quiz is
  ended exactly when there have been as many answers as questions.
\<close>

theorem scorer_behaviour:
  "correctAnswers (checkAnswer True qz) = correctAnswers qz + 1 \<and>
   score (checkAnswer True qz) = score qz + 1 \<and>
   incorrectAnswers (checkAnswer True qz) = incorrectAnswers qz \<and>
   incorrectAnswers (checkAnswer False qz) = incorrectAnswers qz + 1 \<and>
   score (checkAnswer False qz) = score qz \<and>
   correctAnswers (checkAnswer False qz) = correctAnswers qz \<and>
   questionIndex (checkAnswer b qz) = questionIndex qz \<and>
   questionIndex (handleAnswerClick_quiz b qz) = questionIndex qz + 1 \<and>
   questions (handleAnswerClick_quiz b qz) = questions qz \<and>
   isEnded qz = (questionIndex qz = length (questions qz)) \<and>
   correctAnswers (handleAnswerClick_quiz True qz) = correctAnswers qz + 1 \<and>
   score (handleAnswerClick_quiz True qz) = score qz + 1 \<and>
   incorrectAnswers (handleAnswerClick_quiz True qz) = incorrectAnswers qz \<and>
   incorrectAnswers (handleAnswerClick_quiz False qz) = incorrectAnswers qz + 1 \<and>
   score (handleAnswerClick_quiz False qz) = score qz \<and>
   correctAnswers (handleAnswerClick_quiz False qz) = correctAnswers qz \<and>
   isEnded (handleAnswerClick_quiz b qz) = (questionIndex qz + 1 = length (questions qz)) \<and>
   score (process_answers bs (new_Quiz qs)) = length (filter (\<lambda>b. b) bs) \<and>
   correctAnswers (process_answers bs (new_Quiz qs)) = length (filter (\<lambda>b. b) bs) \<and>
   incorrectAnswers (process_answers bs (new_Quiz qs)) = length (filter (\<lambda>b. \<not> b) bs) \<and>
   questionIndex (process_answers bs (new_Quiz qs)) = length bs \<and>
   isEnded (process_answers bs (new_Quiz qs)) = (length bs = length qs)"
proof -
  have single: "correctAnswers (checkAnswer True qz) = correctAnswers qz + 1"
    "score (checkAnswer True qz) = score qz + 1"
    "incorrectAnswers (checkAnswer True qz) = incorrectAnswers qz"
    "incorrectAnswers (checkAnswer False qz) = incorrectAnswers qz + 1"
    "score (checkAnswer False qz) = score qz"
    "correctAnswers (checkAnswer False qz) = correctAnswers qz"
    "questionIndex (checkAnswer b qz) = questionIndex qz"
    "isEnded qz = (questionIndex qz = length (questions qz))"
    by (simp_all add: checkAnswer_def isEnded_def)
  have click: "questionIndex (handleAnswerClick_quiz b qz) = questionIndex qz + 1"
    "questions (handleAnswerClick_quiz b qz) = questions qz"
    "correctAnswers (handleAnswerClick_quiz True qz) = correctAnswers qz + 1"
    "score (handleAnswerClick_quiz True qz) = score qz + 1"
    "incorrectAnswers (handleAnswerClick_quiz True qz) = incorrectAnswers qz"
    "incorrectAnswers (handleAnswerClick_quiz False qz) = incorrectAnswers qz + 1"
    "score (handleAnswerClick_quiz False qz) = score qz"
    "correctAnswers (handleAnswerClick_quiz False qz) = correctAnswers qz"
    "isEnded (handleAnswerClick_quiz b qz) = (questionIndex qz + 1 = length (questions qz))"
    by (simp_all add: handleAnswerClick_quiz_fields isEnded_def)
  have run: "score (process_answers bs (new_Quiz qs)) = length (filter (\<lambda>b. b) bs)"
    "correctAnswers (process_answers bs (new_Quiz qs)) = length (filter (\<lambda>b. b) bs)"
    "incorrectAnswers (process_answers bs (new_Quiz qs)) = length (filter (\<lambda>b. \<not> b) bs)"
    "questionIndex (process_answers bs (new_Quiz qs)) = length bs"
    "isEnded (process_answers bs (new_Quiz qs)) = (length bs = length qs)"
    by (simp_all add: process_answers_fields isEnded_def new_Quiz_def)
  from single click run show ?thesis by (intro conjI)
qed

section \<open>The tier label as a precondition\<close>

text \<open>
  Claim C10. Every question yielded in any run, of either generator, carries one of the
  three tier labels, so a question with another difficulty is dropped by the filters at
  the start and never yielded. A session run to its end yields exactly the labelled
  questions of the input; the yielded multiset equals the input, and the number of
  yielded questions equals the size of the input, exactly when every input question
  carries a tier label.
\<close>

theorem tier_label_precondition:
  assumes full: "length qs \<le> length fbs"
  shows "(\<forall>q\<in>set (fst (run_with gen_next (questionGenerator qs) vs)). has_tier_label q) \<and>
         mset (fst (session qs fbs)) = mset (filter has_tier_label qs) \<and>
         (mset (fst (session qs fbs)) = mset qs) = (\<forall>q\<in>set qs. has_tier_label q) \<and>
         (length (fst (session qs fbs)) = length qs) = (\<forall>q\<in>set qs. has_tier_label q) \<and>
         (\<forall>q\<in>set (fst (run_with gen_next_app (questionGenerator_app qs) vs)). has_tier_label q) \<and>
         mset (fst (session_app qs fbs)) = mset (filter has_tier_label qs) \<and>
         (mset (fst (session_app qs fbs)) = mset qs) = (\<forall>q\<in>set qs. has_tier_label q) \<and>
         (length (fst (session_app qs fbs)) = length qs) = (\<forall>q\<in>set qs. has_tier_label q)"
proof -
  have enough: "length (filter has_tier_label qs) \<le> length fbs"
    using length_filter_le [of has_tier_label qs] full by (rule order_trans)
  have a1: "\<forall>q\<in>set (fst (run_with gen_next (questionGenerator qs) vs)). has_tier_label q"
    using run_emits_labelled by blast
  have a2: "mset (fst (session qs fbs)) = mset (filter has_tier_label qs)"
    using enough by (rule session_complete)
  have a3: "(mset (fst (session qs fbs)) = mset qs) = (\<forall>q\<in>set qs. has_tier_label q)"
    by (simp only: a2 mset_filter_labelled_iff)
  have "length (fst (session qs fbs)) = length (filter has_tier_label qs)"
    using enough by (simp add: session_props(1))
  then have a4: "(length (fst (session qs fbs)) = length qs) = (\<forall>q\<in>set qs. has_tier_label q)"
    by (simp only: length_filter_labelled_iff)
  have b1: "\<forall>q\<in>set (fst (run_with gen_next_app (questionGenerator_app qs) vs)). has_tier_label q"
    using run_app_emits_labelled by blast
  have b2: "mset (fst (session_app qs fbs)) = mset (filter has_tier_label qs)"
    using enough by (rule session_app_complete)
  have b3: "(mset (fst (session_app qs fbs)) = mset qs) = (\<forall>q\<in>set qs. has_tier_label q)"
    by (simp only: b2 mset_filter_labelled_iff)
  have "length (fst (session_app qs fbs)) = length (filter has_tier_label qs)"
    using enough by (simp add: session_app_props(1))
  then have b4: "(length (fst (session_app qs fbs)) = length qs) = (\<forall>q\<in>set qs. has_tier_label q)"
    by (simp only: length_filter_labelled_iff)
  from a1 a2 a3 a4 b1 b2 b3 b4 show ?thesis by blast
qed

text \<open>A pool with one question of difficulty \<open>expert\<close> between an easy and a medium one.\<close>

theorem tier_label_precondition_witness:
  "length [E1, X1, M1] \<le> length [True, True, True] \<and>
   X1 \<in> set [E1, X1, M1] \<and> \<not> has_tier_label X1 \<and>
   fst (run_with gen_next (questionGenerator [E1, X1, M1])
          [None, Some True, Some False, Some True]) = [E1, M1] \<and>
   list_all has_tier_label
     (fst (run_with gen_next (questionGenerator [E1, X1, M1])
             [None, Some True, Some False, Some True])) \<and>
   mset (fst (session [E1, X1, M1] [True, True, True])) = mset (filter has_tier_label [E1, X1, M1]) \<and>
   mset (fst (session [E1, X1, M1] [True, True, True])) \<noteq> mset [E1, X1, M1] \<and>
   length (fst (session [E1, X1, M1] [True, True, True])) \<noteq> length [E1, X1, M1] \<and>
   list_all has_tier_label
     (fst (run_with gen_next_app (questionGenerator_app [E1, X1, M1])
             [None, Some True, Some False, Some True])) \<and>
   mset (fst (session_app [E1, X1, M1] [True, True, True])) \<noteq> mset [E1, X1, M1]"
proof -
  have h: "length [E1, X1, M1] \<le> length [True, True, True]" by simp
  have x: "\<not> has_tier_label X1" by (simp add: has_tier_label_def X1_def)
  then have nall: "\<not> (\<forall>q\<in>set [E1, X1, M1]. has_tier_label q)" by simp
  have ev: "fst (run_with gen_next (questionGenerator [E1, X1, M1])
                   [None, Some True, Some False, Some True]) = [E1, M1]"
    by code_simp
  note t = tier_label_precondition [where qs = "[E1, X1, M1]" and fbs = "[True, True, True]"
      and vs = "[None, Some True, Some False, Some True]", OF h]
  have mem: "X1 \<in> set [E1, X1, M1]" by simp
  from t h x nall ev mem show ?thesis unfolding list_all_iff by blast
qed

end
